theory Spec2Isabelle
  imports Complex_Main "HOL-Library.Sublist"
begin

section \<open>Python values used by the code\<close>

text \<open>
  A Python \<open>str\<close> is a \<open>string\<close>, one \<open>char\<close> per code point; the type \<open>char\<close> has
  256 values, so the texts of the model are those over the code points below 256.
  Patterns may mention any code point (the table of \<open>verifier.py\<close> has CJK labels and
  a full-width colon), so code points in patterns are natural numbers.
\<close>

datatype py_error = IndexError | TypeError | ValueError

definition cp :: "char \<Rightarrow> nat" where
  "cp c = of_char c"

definition cps :: "string \<Rightarrow> nat list" where
  "cps s = map cp s"

text \<open>\<open>str.isdecimal\<close>, \<open>str.isspace\<close> and \<open>str.isalnum\<close> or underscore, below 256.\<close>

definition is_digit :: "nat \<Rightarrow> bool" where
  "is_digit n = (48 \<le> n \<and> n \<le> 57)"

definition is_space :: "nat \<Rightarrow> bool" where
  "is_space n = ((9 \<le> n \<and> n \<le> 13) \<or> (28 \<le> n \<and> n \<le> 32) \<or> n = 133 \<or> n = 160)"

definition is_word :: "nat \<Rightarrow> bool" where
  "is_word n = (is_digit n \<or> (65 \<le> n \<and> n \<le> 90) \<or> (97 \<le> n \<and> n \<le> 122) \<or> n = 95
     \<or> n = 170 \<or> n = 178 \<or> n = 179 \<or> n = 181 \<or> n = 185 \<or> n = 186
     \<or> (188 \<le> n \<and> n \<le> 190) \<or> (192 \<le> n \<and> n \<le> 214)
     \<or> (216 \<le> n \<and> n \<le> 246) \<or> (248 \<le> n \<and> n \<le> 255))"

definition lower_cp :: "nat \<Rightarrow> nat" where
  "lower_cp n = (if (65 \<le> n \<and> n \<le> 90) \<or> (192 \<le> n \<and> n \<le> 222 \<and> n \<noteq> 215) then n + 32 else n)"

definition upper_cp :: "nat \<Rightarrow> nat" where
  "upper_cp n = (if (97 \<le> n \<and> n \<le> 122) \<or> (224 \<le> n \<and> n \<le> 254 \<and> n \<noteq> 247) then n - 32 else n)"

text \<open>\<open>s.lower()\<close>.\<close>

definition lower :: "string \<Rightarrow> string" where
  "lower s = map (\<lambda>c. char_of (lower_cp (cp c))) s"

text \<open>\<open>a in b\<close> on strings: \<open>a\<close> occurs in \<open>b\<close> as a contiguous run.\<close>

fun py_in :: "string \<Rightarrow> string \<Rightarrow> bool" where
  "py_in xs [] = (xs = [])"
| "py_in xs (y # ys) = (prefix xs (y # ys) \<or> py_in xs ys)"

text \<open>\<open>s[i:j]\<close> for \<open>0 \<le> i \<le> j\<close>.\<close>

definition substr :: "string \<Rightarrow> nat \<Rightarrow> nat \<Rightarrow> string" where
  "substr s i j = take (j - i) (drop i s)"

section \<open>The regular expressions of module \<open>re\<close>\<close>

text \<open>
  The pattern strings of the source are written as syntax trees. \<open>Grp\<close> is the first
  capturing group of the pattern, the one \<open>match.group(1)\<close> reads; a pattern has at most
  one. Non-capturing groups are the tree structure. A repetition \<open>Rep neg items m n\<close> is
  the greedy \<open>{m,n}\<close> (\<open>n = None\<close>: no upper bound) of a character class, which is the
  only repetition the source uses.
\<close>

datatype citem = CChar nat | CRange nat nat | CDigit | CSpace | CWord

datatype regex =
    Lit "nat list"
  | Cls bool "citem list"
  | Rep bool "citem list" nat "nat option"
  | Seq regex regex
  | Alt regex regex
  | Grp regex
  | WordB

datatype group_val = No_such_group | Not_set | Captured string

record re_match =
  m_start :: nat
  m_end :: nat
  m_group0 :: string
  m_group1 :: group_val

fun item_match :: "citem \<Rightarrow> nat \<Rightarrow> bool" where
  "item_match (CChar k) n = (n = k)"
| "item_match (CRange a b) n = (a \<le> n \<and> n \<le> b)"
| "item_match CDigit n = is_digit n"
| "item_match CSpace n = is_space n"
| "item_match CWord n = is_word n"

text \<open>
  One character against a class. With \<open>re.IGNORECASE\<close> the character matches an item
  when it, its lower-case form or its upper-case form does.
\<close>

definition cls_match :: "bool \<Rightarrow> bool \<Rightarrow> citem list \<Rightarrow> char \<Rightarrow> bool" where
  "cls_match ic neg items c =
     (let n = cp c;
          vs = (if ic then [n, lower_cp n, upper_cp n] else [n]);
          hit = list_ex (\<lambda>it. list_ex (item_match it) vs) items
      in if neg then \<not> hit else hit)"

definition chr_match :: "bool \<Rightarrow> nat \<Rightarrow> char \<Rightarrow> bool" where
  "chr_match ic k c = (if ic then lower_cp k = lower_cp (cp c) else k = cp c)"

fun lit_at :: "bool \<Rightarrow> nat list \<Rightarrow> string \<Rightarrow> bool" where
  "lit_at ic [] s = True"
| "lit_at ic (k # ks) [] = False"
| "lit_at ic (k # ks) (c # s) = (chr_match ic k c \<and> lit_at ic ks s)"

text \<open>\<open>\b\<close>: exactly one of the two neighbours of position \<open>i\<close> is a word character.\<close>

definition at_boundary :: "string \<Rightarrow> nat \<Rightarrow> bool" where
  "at_boundary t i =
     ((0 < i \<and> i \<le> length t \<and> is_word (cp (t ! (i - 1)))) \<noteq> (i < length t \<and> is_word (cp (t ! i))))"

text \<open>
  The backtracking matcher: \<open>rm ic t r (i, c)\<close> lists, in the order in which the engine
  tries them, the ends (and the span of group 1) of the matches of \<open>r\<close> in \<open>t\<close> that
  start at \<open>i\<close>. A greedy repetition tries the longest run first; an alternation its left
  branch first.
\<close>

type_synonym mstate = "nat \<times> (nat \<times> nat) option"

fun rm :: "bool \<Rightarrow> string \<Rightarrow> regex \<Rightarrow> mstate \<Rightarrow> mstate list" where
  "rm ic t (Lit ks) (i, c) = (if lit_at ic ks (drop i t) then [(i + length ks, c)] else [])"
| "rm ic t (Cls neg items) (i, c) =
     (if i < length t \<and> cls_match ic neg items (t ! i) then [(i + 1, c)] else [])"
| "rm ic t (Rep neg items m n) (i, c) =
     (let run = length (takeWhile (cls_match ic neg items) (drop i t));
          hi = (case n of None \<Rightarrow> run | Some k \<Rightarrow> min k run)
      in map (\<lambda>k. (i + k, c)) (rev [m..<Suc hi]))"
| "rm ic t (Seq a b) s = concat (map (rm ic t b) (rm ic t a s))"
| "rm ic t (Alt a b) s = rm ic t a s @ rm ic t b s"
| "rm ic t (Grp a) (i, c) = map (\<lambda>(e, _). (e, Some (i, e))) (rm ic t a (i, c))"
| "rm ic t WordB (i, c) = (if at_boundary t i then [(i, c)] else [])"

fun has_group :: "regex \<Rightarrow> bool" where
  "has_group (Seq a b) = (has_group a \<or> has_group b)"
| "has_group (Alt a b) = (has_group a \<or> has_group b)"
| "has_group (Grp a) = True"
| "has_group r = False"

definition mk_match :: "regex \<Rightarrow> string \<Rightarrow> nat \<Rightarrow> mstate \<Rightarrow> re_match" where
  "mk_match r t s st =
     \<lparr>m_start = s, m_end = fst st, m_group0 = substr t s (fst st),
      m_group1 = (if \<not> has_group r then No_such_group
                  else case snd st of None \<Rightarrow> Not_set | Some (a, b) \<Rightarrow> Captured (substr t a b))\<rparr>"

text \<open>\<open>pattern.match(t, s)\<close>: the first way the engine finds to match at \<open>s\<close>.\<close>

definition match_at :: "bool \<Rightarrow> regex \<Rightarrow> string \<Rightarrow> nat \<Rightarrow> re_match option" where
  "match_at ic r t s = (case rm ic t r (s, None) of [] \<Rightarrow> None | st # _ \<Rightarrow> Some (mk_match r t s st))"

fun first_some :: "'a option list \<Rightarrow> 'a option" where
  "first_some [] = None"
| "first_some (None # xs) = first_some xs"
| "first_some (Some x # xs) = Some x"

text \<open>\<open>re.search(r, t, flags)\<close>: the match at the leftmost start that has one.\<close>

definition re_search :: "bool \<Rightarrow> regex \<Rightarrow> string \<Rightarrow> re_match option" where
  "re_search ic r t = first_some (map (match_at ic r t) [0..<Suc (length t)])"

text \<open>
  \<open>re.finditer(r, t, flags)\<close>: the non-overlapping matches from left to right. After an
  empty match at \<open>s\<close> a non-empty match may still start at \<open>s\<close> (Python 3.7 and later).
\<close>

fun scan :: "bool \<Rightarrow> regex \<Rightarrow> string \<Rightarrow> nat list \<Rightarrow> nat \<Rightarrow> re_match list" where
  "scan ic r t [] nxt = []"
| "scan ic r t (s # ss) nxt =
     (if s < nxt then scan ic r t ss nxt
      else case rm ic t r (s, None) of
             [] \<Rightarrow> scan ic r t ss nxt
           | st # sts \<Rightarrow>
               if s < fst st then mk_match r t s st # scan ic r t ss (fst st)
               else (case filter (\<lambda>st'. s < fst st') sts of
                       [] \<Rightarrow> mk_match r t s st # scan ic r t ss nxt
                     | st' # _ \<Rightarrow> mk_match r t s st # mk_match r t s st' # scan ic r t ss (fst st')))"

definition re_finditer :: "bool \<Rightarrow> regex \<Rightarrow> string \<Rightarrow> re_match list" where
  "re_finditer ic r t = scan ic r t [0..<Suc (length t)] 0"

text \<open>\<open>re.findall(r, t)\<close> for a pattern without groups: the matched substrings.\<close>

definition re_findall :: "bool \<Rightarrow> regex \<Rightarrow> string \<Rightarrow> string list" where
  "re_findall ic r t = map m_group0 (re_finditer ic r t)"

text \<open>\<open>match.group(1)\<close>: raises when the pattern has no group, is None when the group took no part.\<close>

definition group1 :: "re_match \<Rightarrow> py_error + string option" where
  "group1 m = (case m_group1 m of No_such_group \<Rightarrow> Inl IndexError | Not_set \<Rightarrow> Inr None | Captured s \<Rightarrow> Inr (Some s))"

section \<open>\<open>airdrop_email/base.py\<close>: EmailMessage\<close>

text \<open>
  The dataclass, at the types it declares. \<open>received_at\<close> is a \<open>datetime\<close>; the code
  reads it only through \<open>int(received_at.timestamp() * 1000)\<close>, and the model keeps that
  reading. The field \<open>attachments\<close> is never read or written by the code modelled here.
\<close>

type_synonym datetime = int

record email_message =
  msg_id :: string
  subject :: string
  sender :: string
  recipient :: string
  body_text :: string
  body_html :: "string option"
  received_at :: "datetime option"
  headers :: "(string \<times> string) list option"

section \<open>\<open>airdrop_email/verifier.py\<close>: CodeExtractor\<close>

text \<open>
  BeautifulSoup is a library: the two queries the code makes are parameters.
  \<open>soup_get_text h\<close> is \<open>soup.get_text(separator=' ', strip=True)\<close> after the script and
  style elements of \<open>h\<close> were removed; \<open>soup_anchors h\<close> lists, for the \<open>a\<close> elements
  of \<open>h\<close> that have an href, the href and \<open>link.get_text(strip=True)\<close>.
\<close>

record html_parser =
  soup_get_text :: "string \<Rightarrow> string"
  soup_anchors :: "string \<Rightarrow> (string \<times> string) list"

definition digit_cls :: "citem list" where
  "digit_cls = [CDigit]"

definition alnum_cls :: "citem list" where
  "alnum_cls = [CRange (cp CHR ''A'') (cp CHR ''Z''), CRange (cp CHR ''0'') (cp CHR ''9'')]"

definition sep_cls :: "citem list" where
  "sep_cls = [CSpace, CChar (cp CHR '':''), CChar 0xFF1A]"

definition alts :: "regex list \<Rightarrow> regex" where
  "alts rs = foldr Alt (butlast rs) (last rs)"

text \<open>
  The table, in the order of the source:
  \<^verbatim>\<open>\b(\d{6})\b\<close>, \<^verbatim>\<open>\b(\d{4})\b\<close>, \<^verbatim>\<open>\b(\d{8})\b\<close>, \<^verbatim>\<open>\b([A-Z0-9]{6,8})\b\<close>,
  \<^verbatim>\<open>(?:code|verification code|verify code|confirmation code|otp|pin)[\s:U+FF1A]*([A-Z0-9]{4,8})\<close>,
  \<^verbatim>\<open>(?:U+9A8C U+8BC1 U+7801|U+78BA U+8A8D U+78BC|U+9A57 U+8B49 U+78BC)[\s:U+FF1A]*([A-Z0-9]{4,8})\<close>,
  \<^verbatim>\<open>[?&]code=([A-Z0-9]+)\<close>, \<^verbatim>\<open>[?&]token=([A-Z0-9]+)\<close>.
\<close>

definition PATTERNS :: "regex list" where
  "PATTERNS =
    [Seq WordB (Seq (Grp (Rep False digit_cls 6 (Some 6))) WordB),
     Seq WordB (Seq (Grp (Rep False digit_cls 4 (Some 4))) WordB),
     Seq WordB (Seq (Grp (Rep False digit_cls 8 (Some 8))) WordB),
     Seq WordB (Seq (Grp (Rep False alnum_cls 6 (Some 8))) WordB),
     Seq (alts [Lit (cps ''code''), Lit (cps ''verification code''), Lit (cps ''verify code''),
                Lit (cps ''confirmation code''), Lit (cps ''otp''), Lit (cps ''pin'')])
         (Seq (Rep False sep_cls 0 None) (Grp (Rep False alnum_cls 4 (Some 8)))),
     Seq (alts [Lit [0x9A8C, 0x8BC1, 0x7801], Lit [0x78BA, 0x8A8D, 0x78BC], Lit [0x9A57, 0x8B49, 0x78BC]])
         (Seq (Rep False sep_cls 0 None) (Grp (Rep False alnum_cls 4 (Some 8)))),
     Seq (Cls False [CChar (cp CHR ''?''), CChar (cp CHR ''&'')])
         (Seq (Lit (cps ''code='')) (Grp (Rep False alnum_cls 1 None))),
     Seq (Cls False [CChar (cp CHR ''?''), CChar (cp CHR ''&'')])
         (Seq (Lit (cps ''token='')) (Grp (Rep False alnum_cls 1 None)))]"

definition false_positives :: "string list" where
  "false_positives = [''2024'', ''2023'', ''2022'', ''2021'', ''2020'', ''1234'', ''0000'', ''9999'']"

definition is_valid_code :: "string \<Rightarrow> bool" where
  "is_valid_code code =
     (if code \<in> set false_positives then False
      else if length code < 4 \<or> length code > 8 then False
      else True)"

text \<open>
  The text both extractors search: the plain body, preceded by the visible text of the
  HTML body and a newline when \<open>use_html\<close> holds and the HTML body is a non-empty string.
\<close>

definition unified_text :: "html_parser \<Rightarrow> email_message \<Rightarrow> bool \<Rightarrow> string" where
  "unified_text P message use_html =
     (let text = body_text message
      in case body_html message of
           None \<Rightarrow> text
         | Some h \<Rightarrow> if use_html \<and> h \<noteq> [] then soup_get_text P h @ [CHR 0x0A] @ text else text)"

text \<open>
  The loop over the table in \<open>extract_code\<close>. \<open>_is_valid_code(None)\<close> raises TypeError at
  \<open>len\<close>.
\<close>

fun try_patterns :: "regex list \<Rightarrow> string \<Rightarrow> py_error + string option" where
  "try_patterns [] text = Inr None"
| "try_patterns (p # ps) text =
     (case re_search True p text of
        None \<Rightarrow> try_patterns ps text
      | Some m \<Rightarrow>
          (case group1 m of
             Inl e \<Rightarrow> Inl e
           | Inr None \<Rightarrow> Inl TypeError
           | Inr (Some code) \<Rightarrow> if is_valid_code code then Inr (Some code) else try_patterns ps text))"

text \<open>\<open>pattern\<close> is \<open>None\<close> for Python's None and for the empty pattern string, both falsy.\<close>

definition extract_code :: "html_parser \<Rightarrow> email_message \<Rightarrow> regex option \<Rightarrow> bool \<Rightarrow> py_error + string option" where
  "extract_code P message pattern use_html =
     (let text = unified_text P message use_html
      in case pattern of
           Some p \<Rightarrow> (case re_search True p text of Some m \<Rightarrow> group1 m | None \<Rightarrow> Inr None)
         | None \<Rightarrow> try_patterns PATTERNS text)"

text \<open>The two nested loops of \<open>extract_all_codes\<close>; \<open>codes\<close> and \<open>seen\<close> are threaded through.\<close>

fun collect_matches :: "re_match list \<Rightarrow> string list \<times> string set \<Rightarrow> py_error + string list \<times> string set" where
  "collect_matches [] acc = Inr acc"
| "collect_matches (m # ms) (codes, seen) =
     (case group1 m of
        Inl e \<Rightarrow> Inl e
      | Inr None \<Rightarrow> Inl TypeError
      | Inr (Some code) \<Rightarrow>
          if code \<notin> seen \<and> is_valid_code code then collect_matches ms (codes @ [code], insert code seen)
          else collect_matches ms (codes, seen))"

fun collect_patterns :: "regex list \<Rightarrow> string \<Rightarrow> string list \<times> string set \<Rightarrow> py_error + string list \<times> string set" where
  "collect_patterns [] text acc = Inr acc"
| "collect_patterns (p # ps) text acc =
     (case collect_matches (re_finditer True p text) acc of
        Inl e \<Rightarrow> Inl e
      | Inr acc' \<Rightarrow> collect_patterns ps text acc')"

definition extract_all_codes :: "html_parser \<Rightarrow> email_message \<Rightarrow> bool \<Rightarrow> py_error + string list" where
  "extract_all_codes P message use_html =
     (case collect_patterns PATTERNS (unified_text P message use_html) ([], {}) of
        Inl e \<Rightarrow> Inl e
      | Inr (codes, seen) \<Rightarrow> Inr codes)"

text \<open>\<^verbatim>\<open>https?://[^\s<>"]+|www\.[^\s<>"]+\<close>\<close>

definition url_cls :: "citem list" where
  "url_cls = [CSpace, CChar (cp CHR ''<''), CChar (cp CHR ''>''), CChar 34]"

definition url_pattern :: regex where
  "url_pattern =
     Alt (Seq (Lit (cps ''http'')) (Seq (Rep False [CChar (cp CHR ''s'')] 0 (Some 1))
            (Seq (Lit (cps ''://'')) (Rep True url_cls 1 None))))
         (Seq (Lit (cps ''www.'')) (Rep True url_cls 1 None))"

definition starts_http :: "string \<Rightarrow> bool" where
  "starts_http href = (prefix ''http://'' href \<or> prefix ''https://'' href)"

text \<open>The loop over the anchors; \<open>keyword\<close> is \<open>None\<close> for None and for the empty string.\<close>

fun scan_links :: "(string \<times> string) list \<Rightarrow> string option \<Rightarrow> string option" where
  "scan_links [] keyword = None"
| "scan_links ((href, link_text) # links) keyword =
     (case keyword of
        Some k \<Rightarrow>
          if py_in (lower k) (lower href) \<or> py_in (lower k) (lower link_text) then Some href
          else scan_links links keyword
      | None \<Rightarrow> if starts_http href then Some href else scan_links links keyword)"

fun scan_urls :: "string list \<Rightarrow> string option \<Rightarrow> string option" where
  "scan_urls [] keyword = None"
| "scan_urls (url # urls) keyword =
     (case keyword of
        Some k \<Rightarrow> if py_in (lower k) (lower url) then Some url else scan_urls urls keyword
      | None \<Rightarrow> Some url)"

definition truthy_str :: "string option \<Rightarrow> string option" where
  "truthy_str s = (case s of Some v \<Rightarrow> if v = [] then None else Some v | None \<Rightarrow> None)"

definition extract_link :: "html_parser \<Rightarrow> email_message \<Rightarrow> string option \<Rightarrow> string option" where
  "extract_link P message keyword =
     (let text = body_text message;
          kw = truthy_str keyword;
          from_html = (case truthy_str (body_html message) of
                         Some h \<Rightarrow> scan_links (soup_anchors P h) kw
                       | None \<Rightarrow> None)
      in case from_html of
           Some href \<Rightarrow> Some href
         | None \<Rightarrow> scan_urls (re_findall False url_pattern text) kw)"

section \<open>\<open>email/mail_cx/provider.py\<close>: MailCxProvider\<close>

subsection \<open>The environment\<close>

text \<open>
  The standard library functions whose results the code only passes on are parameters:
  \<open>unquote\<close> is \<open>urllib.parse.unquote\<close>; \<open>fromtimestamp t\<close> is
  \<open>datetime.fromtimestamp(t / 1000)\<close> for an integer \<open>t\<close>, \<open>None\<close> when it raises,
  and otherwise the reading \<open>int(d.timestamp() * 1000)\<close> of the datetime \<open>d\<close> it builds.

  A Python float is a double, and a double is a real number. The arithmetic of doubles
  rounds, so the two operations the code applies to clock readings are parameters too:
  \<open>float_mul x y\<close> is the double \<open>x * y\<close> and \<open>float_sub x y\<close> the double \<open>x - y\<close>. Both
  are the exact product and difference whenever those are doubles themselves.
\<close>

record library =
  unquote :: "string \<Rightarrow> string"
  fromtimestamp :: "int \<Rightarrow> datetime option"
  float_mul :: "real \<Rightarrow> real \<Rightarrow> real"
  float_sub :: "real \<Rightarrow> real \<Rightarrow> real"

text \<open>
  The value of a JSON field as \<open>response.json()\<close> delivers it. Numbers with a fraction
  (Python floats) are not modelled.
\<close>

datatype json = JNull | JBool bool | JInt int | JStr string | JArr "json list" | JObj "(string \<times> json) list"

fun truthy :: "json \<Rightarrow> bool" where
  "truthy JNull = False"
| "truthy (JBool b) = b"
| "truthy (JInt n) = (n \<noteq> 0)"
| "truthy (JStr s) = (s \<noteq> [])"
| "truthy (JArr xs) = (xs \<noteq> [])"
| "truthy (JObj kvs) = (kvs \<noteq> [])"

text \<open>
  The number a value is in a comparison or a division: \<open>bool\<close> is a subclass of
  \<open>int\<close>; for the other values \<open><=\<close> with an int and \<open>/ 1000\<close> raise TypeError.
\<close>

fun as_int :: "json \<Rightarrow> int option" where
  "as_int (JInt n) = Some n"
| "as_int (JBool b) = Some (if b then 1 else 0)"
| "as_int v = None"

text \<open>
  A record of the reply. Every field may be missing; \<open>posix-millis\<close> holds any JSON
  value, the other fields are modelled at the types of the wire format (\<open>from\<close> is a
  string or an object with an optional \<open>address\<close>).
\<close>

datatype from_field = From_str string | From_obj "string option"

record raw_record =
  r_id :: "string option"
  r_subject :: "string option"
  r_from :: "from_field option"
  r_text :: "string option"
  r_html :: "string option"
  r_headers :: "(string \<times> string) list option"
  r_posix_millis :: "json option"

text \<open>
  What one \<open>session.get\<close> of \<open>get_messages\<close> does: it raises, or it answers with a
  status and a body, which is a JSON array of records or anything else (no JSON, or JSON
  that is no array: each of these ends in the handler of \<open>get_messages\<close>, or in an empty
  loop).
\<close>

datatype http_body = Not_json_list | Records "raw_record list"

datatype http_result = Request_error | Response int http_body

text \<open>What the handshake of \<open>get_auth_token\<close> does: it raises, or it answers with cookies.\<close>

datatype handshake = Handshake_error | Handshake_cookies "(string \<times> string) list"

text \<open>
  Module \<open>random\<close>: the generator is a stream of raw draws, and each library call
  reduces one draw into the range it promises. The populations the code passes to
  \<open>choice\<close> and \<open>choices\<close> are non-empty constants.
\<close>

type_synonym rng = "nat \<Rightarrow> nat"

definition draw :: "rng \<Rightarrow> nat \<times> rng" where
  "draw r = (r 0, \<lambda>i. r (Suc i))"

definition randint :: "int \<Rightarrow> int \<Rightarrow> rng \<Rightarrow> int \<times> rng" where
  "randint a b r = (let (x, r') = draw r in (a + int (x mod nat (b - a + 1)), r'))"

definition choice :: "'a list \<Rightarrow> rng \<Rightarrow> 'a \<times> rng" where
  "choice xs r = (let (x, r') = draw r in (xs ! (x mod length xs), r'))"

fun choices :: "'a list \<Rightarrow> nat \<Rightarrow> rng \<Rightarrow> 'a list \<times> rng" where
  "choices xs 0 r = ([], r)"
| "choices xs (Suc k) r =
     (let (y, r1) = choice xs r; (ys, r2) = choices xs k r1 in (y # ys, r2))"

text \<open>
  \<open>int(x)\<close> on a float: truncation towards zero, which is exact. Clock readings are the
  doubles \<open>time.time()\<close> returns, in seconds.
\<close>

definition py_int :: "real \<Rightarrow> int" where
  "py_int x = (if 0 \<le> x then \<lfloor>x\<rfloor> else \<lceil>x\<rceil>)"

text \<open>\<open>s.strip()\<close> and \<open>s.strip(chars)\<close>.\<close>

definition strip_by :: "(char \<Rightarrow> bool) \<Rightarrow> string \<Rightarrow> string" where
  "strip_by f s = rev (dropWhile f (rev (dropWhile f s)))"

definition strip :: "string \<Rightarrow> string" where
  "strip s = strip_by (\<lambda>c. is_space (cp c)) s"

definition strip_chars :: "string \<Rightarrow> string \<Rightarrow> string" where
  "strip_chars cs s = strip_by (\<lambda>c. c \<in> set cs) s"

text \<open>\<open>data[:limit]\<close>; a negative limit counts from the end.\<close>

definition py_take :: "'a list \<Rightarrow> int \<Rightarrow> 'a list" where
  "py_take xs limit = (if 0 \<le> limit then take (nat limit) xs else take (length xs - nat (- limit)) xs)"

subsection \<open>The provider\<close>

text \<open>
  The attributes of a \<open>MailCxProvider\<close> that the code reads and writes. \<open>email\<close> is the
  empty string while no address is bound; \<open>auto_create\<close> is the entry of \<open>config\<close>,
  \<open>None\<close> when the key is missing. The \<open>requests.Session\<close> (headers, cookie jar) is the
  transport: it is represented by the results of its calls.
\<close>

record provider =
  email :: string
  auth_token :: "string option"
  registration_time :: "int option"
  auto_create :: "bool option"

definition MAIL_HOSTS :: "string list" where
  "MAIL_HOSTS = [''qabq.com'', ''nqmo.com'', ''end.tw'', ''uuf.me'', ''6n9.net'']"

definition ascii_lowercase :: string where
  "ascii_lowercase = ''abcdefghijklmnopqrstuvwxyz''"

definition get_auth_token :: "library \<Rightarrow> provider \<Rightarrow> handshake \<Rightarrow> string option" where
  "get_auth_token L s hs =
     (case hs of
        Handshake_error \<Rightarrow> None
      | Handshake_cookies cookies \<Rightarrow>
          (case map_of cookies ''auth_token'' of
             Some raw_token \<Rightarrow>
               Some (strip (strip_chars [CHR 0x27] (strip_chars [CHR 0x22] (strip (unquote L raw_token)))))
           | None \<Rightarrow> None))"

definition generate_random_email :: "rng \<Rightarrow> string \<times> rng" where
  "generate_random_email r =
     (let (username_length, r1) = randint 6 10 r;
          (username, r2) = choices ascii_lowercase (nat username_length) r1;
          (domain, r3) = choice MAIL_HOSTS r2
      in (username @ ''@'' @ domain, r3))"

text \<open>\<open>now\<close> is the reading of \<open>time.time()\<close>. The result is the address, the provider and the generator.\<close>

definition create_email :: "library \<Rightarrow> provider \<Rightarrow> rng \<Rightarrow> real \<Rightarrow> string \<times> provider \<times> rng" where
  "create_email L s r now =
     (let (e, r') = generate_random_email r
      in (e, s\<lparr>email := e, registration_time := Some (py_int (float_mul L now 1000))\<rparr>, r'))"

definition connect :: "library \<Rightarrow> provider \<Rightarrow> handshake \<Rightarrow> rng \<Rightarrow> real \<Rightarrow> bool \<times> provider \<times> rng" where
  "connect L s hs r now =
     (let s1 = s\<lparr>auth_token := get_auth_token L s hs\<rparr>
      in if auth_token s1 = None \<or> auth_token s1 = Some [] then (False, s1, r)
         else if email s1 = [] \<or> (case auto_create s1 of None \<Rightarrow> True | Some b \<Rightarrow> b)
              then (let (e, s2, r') = create_email L s1 r now in (True, s2, r'))
              else (True, s1, r))"

definition get_or :: "'a \<Rightarrow> 'a option \<Rightarrow> 'a" where
  "get_or d v = (case v of None \<Rightarrow> d | Some x \<Rightarrow> x)"

definition to_message :: "provider \<Rightarrow> raw_record \<Rightarrow> datetime option \<Rightarrow> email_message" where
  "to_message s msg_data recv =
     \<lparr>msg_id = get_or [] (r_id msg_data),
      subject = get_or [] (r_subject msg_data),
      sender = (case r_from msg_data of
                  Some (From_obj a) \<Rightarrow> get_or [] a
                | Some (From_str f) \<Rightarrow> f
                | None \<Rightarrow> []),
      recipient = email s,
      body_text = get_or [] (r_text msg_data),
      body_html = Some (get_or [] (r_html msg_data)),
      received_at = recv,
      headers = Some (get_or [] (r_headers msg_data))\<rparr>"

text \<open>
  \<open>since_millis and msg_time <= since_millis\<close>: no comparison is made when
  \<open>since_millis\<close> is None or 0; otherwise the comparison raises TypeError on a value that
  is no number.
\<close>

definition too_old :: "int option \<Rightarrow> json \<Rightarrow> py_error + bool" where
  "too_old since_millis msg_time =
     (case since_millis of
        None \<Rightarrow> Inr False
      | Some b \<Rightarrow> if b = 0 then Inr False
                  else (case as_int msg_time of None \<Rightarrow> Inl TypeError | Some t \<Rightarrow> Inr (t \<le> b)))"

text \<open>The try block around \<open>datetime.fromtimestamp\<close>: every exception leaves \<open>received_at\<close> None.\<close>

definition parse_time :: "library \<Rightarrow> json \<Rightarrow> datetime option" where
  "parse_time L msg_time =
     (if truthy msg_time
      then (case as_int msg_time of None \<Rightarrow> None | Some t \<Rightarrow> fromtimestamp L t)
      else None)"

text \<open>The loop over \<open>data[:limit]\<close>; an exception in one iteration leaves the loop.\<close>

fun collect :: "library \<Rightarrow> provider \<Rightarrow> int option \<Rightarrow> raw_record list \<Rightarrow> py_error + email_message list" where
  "collect L s since_millis [] = Inr []"
| "collect L s since_millis (msg_data # rest) =
     (let msg_time = get_or (JInt 0) (r_posix_millis msg_data)
      in case too_old since_millis msg_time of
           Inl e \<Rightarrow> Inl e
         | Inr True \<Rightarrow> collect L s since_millis rest
         | Inr False \<Rightarrow>
             (case collect L s since_millis rest of
                Inl e \<Rightarrow> Inl e
              | Inr messages \<Rightarrow> Inr (to_message s msg_data (parse_time L msg_time) # messages)))"

text \<open>
  \<open>since\<close> is a datetime, given by its reading in milliseconds. The arguments \<open>folder\<close>
  and \<open>unread_only\<close> are not used by the source.
\<close>

definition get_messages :: "library \<Rightarrow> provider \<Rightarrow> http_result \<Rightarrow> int \<Rightarrow> datetime option \<Rightarrow> email_message list" where
  "get_messages L s http limit since =
     (if auth_token s = None \<or> auth_token s = Some [] then []
      else if email s = [] then []
      else case http of
             Request_error \<Rightarrow> []
           | Response status body \<Rightarrow>
               if status \<noteq> 200 then []
               else (case body of
                       Not_json_list \<Rightarrow> []
                     | Records data \<Rightarrow>
                         (let since_millis =
                                (case since of
                                   Some d \<Rightarrow> Some d
                                 | None \<Rightarrow> (case registration_time s of
                                              Some t \<Rightarrow> if t \<noteq> 0 then Some t else None
                                            | None \<Rightarrow> None))
                          in case collect L s since_millis (py_take data limit) of
                               Inl e \<Rightarrow> []
                             | Inr messages \<Rightarrow> messages)))"

text \<open>
  \<open>wait_for_message\<close>. The environment of a call is the two clock readings taken before
  the loop and, for every test of the loop condition, the clock reading of the test and
  the result of the request that follows it. \<open>Pending\<close> is the loop still running when
  the recorded environment ends.
\<close>

datatype 'a outcome = Returned 'a | Raised py_error | Pending

text \<open>The loop over the messages of one poll: the message returned, if any, and \<open>seen_ids\<close>.\<close>

fun scan_messages :: "email_message list \<Rightarrow> string set \<Rightarrow> int \<Rightarrow> string option \<Rightarrow> string option
    \<Rightarrow> email_message option \<times> string set" where
  "scan_messages [] seen_ids wait_start_millis fs fd = (None, seen_ids)"
| "scan_messages (msg # msgs) seen_ids wait_start_millis fs fd =
     (if msg_id msg \<in> seen_ids then scan_messages msgs seen_ids wait_start_millis fs fd
      else let seen' = insert (msg_id msg) seen_ids
           in if (case received_at msg of Some msg_millis \<Rightarrow> msg_millis < wait_start_millis | None \<Rightarrow> False)
              then scan_messages msgs seen' wait_start_millis fs fd
              else if (case fs of Some f \<Rightarrow> \<not> py_in (lower f) (lower (subject msg)) | None \<Rightarrow> False)
              then scan_messages msgs seen' wait_start_millis fs fd
              else if (case fd of Some f \<Rightarrow> \<not> py_in (lower f) (lower (sender msg)) | None \<Rightarrow> False)
              then scan_messages msgs seen' wait_start_millis fs fd
              else (Some msg, seen'))"

text \<open>The while loop; \<open>time.sleep\<close> raises ValueError on a negative interval.\<close>

fun wait_loop :: "library \<Rightarrow> provider \<Rightarrow> real \<Rightarrow> int \<Rightarrow> int \<Rightarrow> int \<Rightarrow> string option \<Rightarrow> string option
    \<Rightarrow> (real \<times> http_result) list \<Rightarrow> string set \<Rightarrow> email_message option outcome" where
  "wait_loop L s start_time wait_start_millis timeout interval fs fd [] seen_ids = Pending"
| "wait_loop L s start_time wait_start_millis timeout interval fs fd ((now, http) # polls) seen_ids =
     (if float_sub L now start_time < real_of_int timeout
      then if interval < 0 then Raised ValueError
           else (case scan_messages (get_messages L s http 20 None) seen_ids wait_start_millis fs fd of
                   (Some msg, seen') \<Rightarrow> Returned (Some msg)
                 | (None, seen') \<Rightarrow>
                     wait_loop L s start_time wait_start_millis timeout interval fs fd polls seen')
      else Returned None)"

text \<open>\<open>t0\<close> and \<open>t1\<close> are the readings of \<open>time.time()\<close> for \<open>start_time\<close> and for \<open>wait_start_millis\<close>.\<close>

definition wait_for_message :: "library \<Rightarrow> provider \<Rightarrow> real \<Rightarrow> real \<Rightarrow> (real \<times> http_result) list
    \<Rightarrow> int \<Rightarrow> int \<Rightarrow> string option \<Rightarrow> string option \<Rightarrow> email_message option outcome" where
  "wait_for_message L s t0 t1 polls timeout interval filter_subject filter_sender =
     wait_loop L s t0 (py_int (float_mul L t1 1000)) timeout interval
       (truthy_str filter_subject) (truthy_str filter_sender) polls {}"

section \<open>Notions used to state the properties\<close>

text \<open>
  A pattern in which the group takes part in every match: then \<open>match.group(1)\<close> is a
  string. Every pattern of the table is of this kind.
\<close>

fun must_group :: "regex \<Rightarrow> bool" where
  "must_group (Grp a) = True"
| "must_group (Seq a b) = (must_group a \<or> must_group b)"
| "must_group (Alt a b) = (must_group a \<and> must_group b)"
| "must_group r = False"

text \<open>
  The group captured by the leftmost match of a pattern, searched without regard to case:
  what \<open>re.search(p, text, re.IGNORECASE).group(1)\<close> is when there is a match.
\<close>

definition leftmost_code :: "regex \<Rightarrow> string \<Rightarrow> string option" where
  "leftmost_code p text =
     (case re_search True p text of
        None \<Rightarrow> None
      | Some m \<Rightarrow> (case m_group1 m of Captured c \<Rightarrow> Some c | _ \<Rightarrow> None))"

text \<open>
  The timestamp of a record as the time filter reads it: 0 when the field is missing,
  \<open>None\<close> when the field holds a value that is no number.
\<close>

definition record_millis :: "raw_record \<Rightarrow> int option" where
  "record_millis r = as_int (get_or (JInt 0) (r_posix_millis r))"

section \<open>Example inputs\<close>

text \<open>
  The inputs at which the properties are run. \<open>example_parser\<close> answers as
  BeautifulSoup does on the one document \<open>example_html\<close>; \<open>example_library\<close> decodes
  nothing, builds every datetime and computes exactly, and the clock readings used with it
  are doubles whose product with 1000 and whose differences are doubles again, so that
  the double arithmetic of the code gives these exact values; \<open>example_rng\<close> draws
  0, 1, 2, ...
\<close>

definition example_html :: string where
  "example_html = ''<a href=/verify>Verify Email</a>''"

definition example_parser :: html_parser where
  "example_parser =
     \<lparr>soup_get_text = (\<lambda>h. if h = example_html then ''Verify Email'' else []),
      soup_anchors = (\<lambda>h. if h = example_html then [(''/verify'', ''Verify Email'')] else [])\<rparr>"

definition example_message :: "string \<Rightarrow> string \<Rightarrow> string option \<Rightarrow> email_message" where
  "example_message i text html =
     \<lparr>msg_id = i, subject = ''Welcome'', sender = ''noreply@example.com'', recipient = ''abcdef@end.tw'',
      body_text = text, body_html = html, received_at = None, headers = None\<rparr>"

definition example_library :: library where
  "example_library =
     \<lparr>unquote = (\<lambda>s. s), fromtimestamp = (\<lambda>t. Some t),
      float_mul = (\<lambda>x y. x * y), float_sub = (\<lambda>x y. x - y)\<rparr>"

definition example_provider :: provider where
  "example_provider =
     \<lparr>email = ''abcdef@end.tw'', auth_token = Some ''tok'', registration_time = Some 1000, auto_create = None\<rparr>"

definition example_record :: "string \<Rightarrow> json option \<Rightarrow> raw_record" where
  "example_record i ts =
     \<lparr>r_id = Some i, r_subject = None, r_from = None, r_text = None, r_html = None, r_headers = None,
      r_posix_millis = ts\<rparr>"

definition example_rng :: rng where
  "example_rng = (\<lambda>i. i)"

section \<open>Evaluation\<close>

lemmas re_eval = cp_def cps_def is_digit_def is_space_def is_word_def lower_cp_def upper_cp_def
  cls_match_def chr_match_def at_boundary_def mk_match_def match_at_def re_search_def
  re_finditer_def re_findall_def group1_def substr_def digit_cls_def alnum_cls_def sep_cls_def alts_def
  url_cls_def url_pattern_def PATTERNS_def is_valid_code_def false_positives_def leftmost_code_def

lemmas ex_eval = example_html_def example_parser_def example_message_def example_library_def
  example_provider_def example_record_def example_rng_def

lemma choices_numeral:
  "choices xs (numeral n) r =
     (let (y, r1) = choice xs r; (ys, r2) = choices xs (pred_numeral n) r1 in (y # ys, r2))"
  by (simp add: numeral_eq_Suc)

section \<open>The matcher: the group of the table's patterns is always captured\<close>

lemma rm_keeps_group: "st' \<in> set (rm ic t r st) \<Longrightarrow> snd st \<noteq> None \<Longrightarrow> snd st' \<noteq> None"
proof (induction r arbitrary: st st')
  case (Seq a b)
  from Seq.prems(1) obtain mid where mid: "mid \<in> set (rm ic t a st)" "st' \<in> set (rm ic t b mid)"
    by auto
  from Seq.IH(1)[OF mid(1) Seq.prems(2)] have "snd mid \<noteq> None" .
  from Seq.IH(2)[OF mid(2) this] show ?case .
next
  case (Alt a b)
  from Alt.prems(1) have "st' \<in> set (rm ic t a st) \<or> st' \<in> set (rm ic t b st)" by simp
  then show ?case using Alt.IH Alt.prems(2) by blast
qed (cases st; auto split: if_splits simp: Let_def)+

lemma rm_sets_group: "must_group r \<Longrightarrow> st' \<in> set (rm ic t r st) \<Longrightarrow> snd st' \<noteq> None"
proof (induction r arbitrary: st st')
  case (Seq a b)
  from Seq.prems(2) obtain mid where mid: "mid \<in> set (rm ic t a st)" "st' \<in> set (rm ic t b mid)"
    by auto
  show ?case
  proof (cases "must_group b")
    case True
    then show ?thesis using Seq.IH(2) mid(2) by blast
  next
    case False
    then have "must_group a" using Seq.prems(1) by simp
    then have "snd mid \<noteq> None" using Seq.IH(1) mid(1) by blast
    then show ?thesis using rm_keeps_group mid(2) by blast
  qed
next
  case (Alt a b)
  from Alt.prems(1) have mg: "must_group a" "must_group b" by simp_all
  from Alt.prems(2) have "st' \<in> set (rm ic t a st) \<or> st' \<in> set (rm ic t b st)" by simp
  then show ?case using Alt.IH(1)[OF mg(1)] Alt.IH(2)[OF mg(2)] by blast
next
  case (Grp a)
  then show ?case by (cases st) auto
qed simp_all

lemma must_group_has_group: "must_group r \<Longrightarrow> has_group r"
  by (induction r) auto

lemma mk_match_captured:
  assumes "must_group r" "st \<in> set (rm ic t r st0)"
  shows "\<exists>c. m_group1 (mk_match r t s st) = Captured c"
proof -
  from assms have "snd st \<noteq> None" by (rule rm_sets_group)
  then obtain a b where "snd st = Some (a, b)" by (cases "snd st") auto
  then show ?thesis using must_group_has_group[OF assms(1)] by (simp add: mk_match_def)
qed

lemma match_at_captured:
  assumes "must_group r" "match_at ic r t s = Some m"
  shows "\<exists>c. m_group1 m = Captured c"
proof (cases "rm ic t r (s, None)")
  case Nil
  then show ?thesis using assms(2) by (simp add: match_at_def)
next
  case (Cons st sts)
  then have "st \<in> set (rm ic t r (s, None))" by simp
  from mk_match_captured[OF assms(1) this, of s] show ?thesis
    using assms(2) Cons by (simp add: match_at_def)
qed

lemma first_some_mem: "first_some xs = Some x \<Longrightarrow> Some x \<in> set xs"
  by (induction xs rule: first_some.induct) auto

lemma re_search_captured:
  assumes "must_group r" "re_search ic r t = Some m"
  shows "\<exists>c. m_group1 m = Captured c"
proof -
  from assms(2) have "Some m \<in> set (map (match_at ic r t) [0..<Suc (length t)])"
    unfolding re_search_def by (rule first_some_mem)
  then obtain s where "match_at ic r t s = Some m" by auto
  with assms(1) show ?thesis by (rule match_at_captured)
qed

lemma scan_captured: "must_group r \<Longrightarrow> m \<in> set (scan ic r t ss nxt) \<Longrightarrow> \<exists>c. m_group1 m = Captured c"
proof (induction ss arbitrary: nxt)
  case Nil
  then show ?case by simp
next
  case (Cons s ss)
  show ?case
  proof (cases "s < nxt")
    case True
    then show ?thesis using Cons by simp
  next
    case False
    show ?thesis
    proof (cases "rm ic t r (s, None)")
      case Nil
      then show ?thesis using Cons False by simp
    next
      case (Cons st sts)
      have st: "st \<in> set (rm ic t r (s, None))" using Cons by simp
      have sts: "\<And>x. x \<in> set (filter (\<lambda>st'. s < fst st') sts) \<Longrightarrow> x \<in> set (rm ic t r (s, None))"
        using Cons by simp
      show ?thesis
      proof (cases "s < fst st")
        case True
        then show ?thesis
          using Cons.prems Cons.IH Cons False \<open>rm ic t r (s, None) = st # sts\<close> mk_match_captured[OF Cons.prems(1) st]
          by auto
      next
        case nonadv: False
        show ?thesis
        proof (cases "filter (\<lambda>st'. s < fst st') sts")
          case Nil
          then show ?thesis
            using Cons.prems Cons.IH False nonadv \<open>rm ic t r (s, None) = st # sts\<close> mk_match_captured[OF Cons.prems(1) st]
            by auto
        next
          case (Cons st' rest)
          then have "st' \<in> set (rm ic t r (s, None))" using sts by simp
          then show ?thesis
            using Cons.prems Cons.IH False nonadv Cons \<open>rm ic t r (s, None) = st # sts\<close>
              mk_match_captured[OF Cons.prems(1) st] mk_match_captured[OF Cons.prems(1), of st' ic t "(s, None)"]
            by auto
        qed
      qed
    qed
  qed
qed

lemma re_finditer_captured: "must_group r \<Longrightarrow> m \<in> set (re_finditer ic r t) \<Longrightarrow> \<exists>c. m_group1 m = Captured c"
  unfolding re_finditer_def by (rule scan_captured)

lemma PATTERNS_must_group: "\<forall>p\<in>set PATTERNS. must_group p"
  by (simp add: PATTERNS_def alts_def)

section \<open>Properties of the extractor\<close>

lemma is_valid_codeD:
  "is_valid_code c \<Longrightarrow> c \<notin> {''2024'', ''2023'', ''2022'', ''2021'', ''2020'', ''1234'', ''0000'', ''9999''} \<and> 4 \<le> length c \<and> length c \<le> 8"
  by (simp add: is_valid_code_def false_positives_def split: if_splits)

lemma try_patterns_spec:
  assumes "\<forall>p\<in>set ps. must_group p"
  shows "\<exists>r. try_patterns ps text = Inr r \<and>
    (\<forall>c. r = Some c \<longrightarrow> is_valid_code c \<and>
       (\<exists>pre p post. ps = pre @ p # post \<and> leftmost_code p text = Some c \<and>
          (\<forall>q\<in>set pre. \<forall>c'. leftmost_code q text = Some c' \<longrightarrow> \<not> is_valid_code c'))) \<and>
    (r = None \<longleftrightarrow> (\<forall>p\<in>set ps. \<forall>c'. leftmost_code p text = Some c' \<longrightarrow> \<not> is_valid_code c'))"
  using assms
proof (induction ps)
  case Nil
  then show ?case by simp
next
  case (Cons p ps)
  then obtain r where r: "try_patterns ps text = Inr r"
    and rS: "\<And>c. r = Some c \<Longrightarrow> is_valid_code c \<and>
       (\<exists>pre q post. ps = pre @ q # post \<and> leftmost_code q text = Some c \<and>
          (\<forall>q\<in>set pre. \<forall>c'. leftmost_code q text = Some c' \<longrightarrow> \<not> is_valid_code c'))"
    and rN: "r = None \<longleftrightarrow> (\<forall>p\<in>set ps. \<forall>c'. leftmost_code p text = Some c' \<longrightarrow> \<not> is_valid_code c')"
    by auto
  have skip: ?case
    if inv: "\<forall>c'. leftmost_code p text = Some c' \<longrightarrow> \<not> is_valid_code c'"
      and eq: "try_patterns (p # ps) text = try_patterns ps text"
  proof -
    have "\<exists>pre q post. p # ps = pre @ q # post \<and> leftmost_code q text = Some c \<and>
          (\<forall>q\<in>set pre. \<forall>c'. leftmost_code q text = Some c' \<longrightarrow> \<not> is_valid_code c')"
      if "r = Some c" for c
    proof -
      from rS[OF that] obtain pre q post where
        "ps = pre @ q # post" "leftmost_code q text = Some c"
        "\<forall>q\<in>set pre. \<forall>c'. leftmost_code q text = Some c' \<longrightarrow> \<not> is_valid_code c'"
        by blast
      then have "p # ps = (p # pre) @ q # post \<and> leftmost_code q text = Some c \<and>
          (\<forall>q\<in>set (p # pre). \<forall>c'. leftmost_code q text = Some c' \<longrightarrow> \<not> is_valid_code c')"
        using inv by simp
      then show ?thesis by blast
    qed
    moreover have "r = None \<longleftrightarrow> (\<forall>p\<in>set (p # ps). \<forall>c'. leftmost_code p text = Some c' \<longrightarrow> \<not> is_valid_code c')"
      using rN inv by simp
    ultimately show ?thesis using r rS eq by (intro exI[of _ r]) (simp only: , blast)
  qed
  show ?case
  proof (cases "re_search True p text")
    case None
    then have "leftmost_code p text = None" by (simp add: leftmost_code_def)
    then show ?thesis using None by (intro skip) simp_all
  next
    case (Some m)
    have "must_group p" using Cons.prems by simp
    from re_search_captured[OF this Some] obtain code where code: "m_group1 m = Captured code" ..
    then have lc: "leftmost_code p text = Some code" using Some by (simp add: leftmost_code_def)
    show ?thesis
    proof (cases "is_valid_code code")
      case True
      then have "try_patterns (p # ps) text = Inr (Some code)"
        using Some code by (simp add: group1_def)
      moreover have "p # ps = [] @ p # ps" by simp
      ultimately show ?thesis using lc True
        by (intro exI[of _ "Some code"]) (auto intro!: exI[of _ "[]"])
    next
      case False
      then show ?thesis using Some code lc by (intro skip) (simp_all add: group1_def)
    qed
  qed
qed

lemma collect_matches_valid:
  assumes "\<forall>m\<in>set ms. \<exists>c. m_group1 m = Captured c" "\<forall>c\<in>set codes. is_valid_code c"
  shows "\<exists>codes' seen'. collect_matches ms (codes, seen) = Inr (codes', seen') \<and> (\<forall>c\<in>set codes'. is_valid_code c)"
  using assms
proof (induction ms arbitrary: codes seen)
  case Nil
  then show ?case by simp
next
  case (Cons m ms)
  then obtain code where code: "m_group1 m = Captured code" by auto
  show ?case
  proof (cases "code \<notin> seen \<and> is_valid_code code")
    case True
    then have "\<forall>c\<in>set (codes @ [code]). is_valid_code c" using Cons.prems(2) by simp
    with Cons.IH[of "codes @ [code]" "insert code seen"] Cons.prems(1) True code
    show ?thesis by (simp add: group1_def)
  next
    case False
    with Cons.IH[of codes seen] Cons.prems code show ?thesis by (auto simp add: group1_def)
  qed
qed

lemma collect_patterns_valid:
  assumes "\<forall>p\<in>set ps. must_group p" "\<forall>c\<in>set (fst acc). is_valid_code c"
  shows "\<exists>acc'. collect_patterns ps text acc = Inr acc' \<and> (\<forall>c\<in>set (fst acc'). is_valid_code c)"
  using assms
proof (induction ps arbitrary: acc)
  case Nil
  then show ?case by simp
next
  case (Cons p ps)
  obtain codes seen where acc: "acc = (codes, seen)" by (cases acc)
  have "must_group p" using Cons.prems(1) by simp
  then have "\<forall>m\<in>set (re_finditer True p text). \<exists>c. m_group1 m = Captured c"
    by (blast intro: re_finditer_captured)
  from collect_matches_valid[OF this, of codes seen] Cons.prems(2) acc
  obtain codes' seen' where
    st: "collect_matches (re_finditer True p text) acc = Inr (codes', seen')" "\<forall>c\<in>set codes'. is_valid_code c"
    by auto
  from Cons.IH[of "(codes', seen')"] Cons.prems(1) st show ?case by simp
qed

lemma scan_links_keyword:
  assumes "\<forall>(a, t)\<in>set pre. \<not> py_in (lower k) (lower a) \<and> \<not> py_in (lower k) (lower t)"
    and "py_in (lower k) (lower href) \<or> py_in (lower k) (lower txt)"
  shows "scan_links (pre @ (href, txt) # post) (Some k) = Some href"
  using assms by (induction pre) auto

text \<open>
  Claim C3, as amended. Without a custom pattern, \<open>extract_code\<close> returns normally and
  what it returns is none of the false-positive literals and has between 4 and 8
  characters; \<open>extract_all_codes\<close> returns normally and so is every element of its list.
  With a custom pattern \<open>p\<close>, \<open>extract_code\<close> returns what \<open>group(1)\<close> of the leftmost
  match of \<open>p\<close> is, as it is and with no validation: the captured string whatever it is,
  nothing when the group took no part or when there is no match, and IndexError when the
  pattern has no group.
\<close>

theorem extract_valid_codes:
  "(\<exists>r. extract_code P message None use_html = Inr r \<and>
      (\<forall>c. r = Some c \<longrightarrow>
         c \<notin> {''2024'', ''2023'', ''2022'', ''2021'', ''2020'', ''1234'', ''0000'', ''9999''}
         \<and> 4 \<le> length c \<and> length c \<le> 8)) \<and>
   (\<exists>cs. extract_all_codes P message use_html = Inr cs \<and>
      (\<forall>c\<in>set cs.
         c \<notin> {''2024'', ''2023'', ''2022'', ''2021'', ''2020'', ''1234'', ''0000'', ''9999''}
         \<and> 4 \<le> length c \<and> length c \<le> 8)) \<and>
   extract_code P message (Some p) use_html =
     (case re_search True p (unified_text P message use_html) of
        None \<Rightarrow> Inr None
      | Some m \<Rightarrow> (case m_group1 m of
                    No_such_group \<Rightarrow> Inl IndexError
                  | Not_set \<Rightarrow> Inr None
                  | Captured c \<Rightarrow> Inr (Some c)))"
proof (intro conjI)
  from try_patterns_spec[OF PATTERNS_must_group, of "unified_text P message use_html"]
  obtain r where "try_patterns PATTERNS (unified_text P message use_html) = Inr r"
    "\<forall>c. r = Some c \<longrightarrow> is_valid_code c" by blast
  then show "\<exists>r. extract_code P message None use_html = Inr r \<and>
      (\<forall>c. r = Some c \<longrightarrow>
         c \<notin> {''2024'', ''2023'', ''2022'', ''2021'', ''2020'', ''1234'', ''0000'', ''9999''}
         \<and> 4 \<le> length c \<and> length c \<le> 8)"
    using is_valid_codeD by (auto simp add: extract_code_def)
next
  from collect_patterns_valid[OF PATTERNS_must_group, of "([], {})" "unified_text P message use_html"]
  obtain codes seen where "collect_patterns PATTERNS (unified_text P message use_html) ([], {}) = Inr (codes, seen)"
    "\<forall>c\<in>set codes. is_valid_code c" by auto
  then show "\<exists>cs. extract_all_codes P message use_html = Inr cs \<and>
      (\<forall>c\<in>set cs.
         c \<notin> {''2024'', ''2023'', ''2022'', ''2021'', ''2020'', ''1234'', ''0000'', ''9999''}
         \<and> 4 \<le> length c \<and> length c \<le> 8)"
    using is_valid_codeD by (auto simp add: extract_all_codes_def)
next
  show "extract_code P message (Some p) use_html =
     (case re_search True p (unified_text P message use_html) of
        None \<Rightarrow> Inr None
      | Some m \<Rightarrow> (case m_group1 m of
                    No_such_group \<Rightarrow> Inl IndexError
                  | Not_set \<Rightarrow> Inr None
                  | Captured c \<Rightarrow> Inr (Some c)))"
    by (simp add: extract_code_def group1_def split: option.splits)
qed

text \<open>
  Claim C3, the amended statement run on the body \<open>Your code: 482913 ok\<close>, without a
  custom pattern and with the custom pattern \<^verbatim>\<open>(\d{2})\<close>, whose group \<open>48\<close> is returned
  although it has two characters.
\<close>

theorem extract_valid_codes_witness:
  "extract_code example_parser (example_message ''m1'' ''Your code: 482913 ok'' None) None True = Inr (Some ''482913'')
   \<and> extract_all_codes example_parser (example_message ''m1'' ''Your code: 482913 ok'' None) True = Inr [''482913'']
   \<and> ''482913'' \<notin> {''2024'', ''2023'', ''2022'', ''2021'', ''2020'', ''1234'', ''0000'', ''9999''}
   \<and> 4 \<le> length ''482913'' \<and> length ''482913'' \<le> 8
   \<and> extract_code example_parser (example_message ''m1'' ''Your code: 482913 ok'' None)
        (Some (Grp (Rep False digit_cls 2 (Some 2)))) True = Inr (Some ''48'')
   \<and> map_option m_group1 (re_search True (Grp (Rep False digit_cls 2 (Some 2)))
        (unified_text example_parser (example_message ''m1'' ''Your code: 482913 ok'' None) True))
       = Some (Captured ''48'')
   \<and> length ''48'' < 4"
  using extract_valid_codes[where P = example_parser
      and message = "example_message ''m1'' ''Your code: 482913 ok'' None" and use_html = True
      and p = "Grp (Rep False digit_cls 2 (Some 2))"]
  by (simp add: extract_code_def extract_all_codes_def unified_text_def re_eval ex_eval)

text \<open>
  Claim C3 as stated fails with a custom pattern: the branch for a custom pattern returns
  the group without validating it. With the pattern \<^verbatim>\<open>\b(\d{4})\b\<close> and the body
  \<open>2024\<close>, \<open>extract_code\<close> returns the false-positive literal \<open>2024\<close>.
\<close>

theorem extract_code_custom_pattern_counterexample:
  "extract_code example_parser (example_message ''m1'' ''2024'' None)
     (Some (Seq WordB (Seq (Grp (Rep False digit_cls 4 (Some 4))) WordB))) True = Inr (Some ''2024'')"
  by (simp add: extract_code_def unified_text_def re_eval ex_eval)

text \<open>
  Claim C4, as amended. Without a custom pattern \<open>extract_code\<close> returns normally. It
  looks only at the leftmost match of each pattern: the code returned is the group of the
  leftmost match of the first pattern of the table, in table order, whose leftmost match
  has a valid group; nothing is returned exactly when no pattern's leftmost match has a
  valid group.
\<close>

theorem extract_code_priority:
  "\<exists>r. extract_code P message None use_html = Inr r \<and>
    (\<forall>c. r = Some c \<longrightarrow> is_valid_code c \<and>
       (\<exists>pre p post. PATTERNS = pre @ p # post \<and>
          leftmost_code p (unified_text P message use_html) = Some c \<and>
          (\<forall>q\<in>set pre. \<forall>c'. leftmost_code q (unified_text P message use_html) = Some c' \<longrightarrow> \<not> is_valid_code c'))) \<and>
    (r = None \<longleftrightarrow>
       (\<forall>p\<in>set PATTERNS. \<forall>c'. leftmost_code p (unified_text P message use_html) = Some c' \<longrightarrow> \<not> is_valid_code c'))"
  using try_patterns_spec[OF PATTERNS_must_group, of "unified_text P message use_html"]
  by (simp add: extract_code_def)

text \<open>
  Claim C4, the amended statement run on the body \<open>2024 ab12cd\<close>: the 4-digit pattern
  finds the invalid \<open>2024\<close>, the alphanumeric pattern gives the result.
\<close>

theorem extract_code_priority_witness:
  "extract_code example_parser (example_message ''m1'' ''2024 ab12cd'' None) None True = Inr (Some ''ab12cd'')
   \<and> is_valid_code ''ab12cd''
   \<and> leftmost_code (PATTERNS ! 3) (unified_text example_parser (example_message ''m1'' ''2024 ab12cd'' None) True) = Some ''ab12cd''
   \<and> leftmost_code (PATTERNS ! 1) (unified_text example_parser (example_message ''m1'' ''2024 ab12cd'' None) True) = Some ''2024''
   \<and> \<not> is_valid_code ''2024''"
  using extract_code_priority[of example_parser "example_message ''m1'' ''2024 ab12cd'' None" True]
  by (simp add: extract_code_def unified_text_def re_eval ex_eval)

text \<open>
  Claim C4 as stated fails: on the body \<open>2024 5678\<close> the 4-digit pattern has the
  matches \<open>2024\<close> and \<open>5678\<close>, and \<open>5678\<close> is valid, but \<open>extract_code\<close> looks at
  the leftmost match \<open>2024\<close> only and returns nothing.
\<close>

theorem extract_code_leftmost_only_counterexample:
  "extract_code example_parser (example_message ''m1'' ''2024 5678'' None) None True = Inr None
   \<and> unified_text example_parser (example_message ''m1'' ''2024 5678'' None) True = ''2024 5678''
   \<and> map m_group1 (re_finditer True (PATTERNS ! 1) ''2024 5678'') = [Captured ''2024'', Captured ''5678'']
   \<and> is_valid_code ''5678''"
  by (simp add: extract_code_def unified_text_def re_eval ex_eval)

text \<open>
  Claim C9. \<open>extract_code\<close> depends on the message through its two bodies only: two
  messages with the same \<open>body_text\<close> and the same \<open>body_html\<close> give the same result, for
  the same pattern argument, flag and parser.
\<close>

theorem extract_code_deterministic:
  "body_text m1 = body_text m2 \<Longrightarrow> body_html m1 = body_html m2 \<Longrightarrow>
   extract_code P m1 pattern use_html = extract_code P m2 pattern use_html"
  by (simp add: extract_code_def unified_text_def)

text \<open>
  Claim C9 run on two messages that differ in their id.
\<close>

theorem extract_code_deterministic_witness:
  "body_text (example_message ''m1'' ''Your code: 482913 ok'' (Some example_html))
     = body_text (example_message ''m2'' ''Your code: 482913 ok'' (Some example_html))
   \<and> body_html (example_message ''m1'' ''Your code: 482913 ok'' (Some example_html))
     = body_html (example_message ''m2'' ''Your code: 482913 ok'' (Some example_html))
   \<and> example_message ''m1'' ''Your code: 482913 ok'' (Some example_html)
     \<noteq> example_message ''m2'' ''Your code: 482913 ok'' (Some example_html)
   \<and> extract_code example_parser (example_message ''m1'' ''Your code: 482913 ok'' (Some example_html)) None True
     = extract_code example_parser (example_message ''m2'' ''Your code: 482913 ok'' (Some example_html)) None True"
  using extract_code_deterministic[of "example_message ''m1'' ''Your code: 482913 ok'' (Some example_html)"
      "example_message ''m2'' ''Your code: 482913 ok'' (Some example_html)" example_parser None True]
  by (simp add: example_message_def)

text \<open>
  Claim C10. With a keyword and a non-empty HTML body, \<open>extract_link\<close> returns the href
  of the first anchor whose href or text contains the keyword without regard to case,
  whatever that href is: no scheme is asked of it.
\<close>

theorem extract_link_keyword_any_href:
  assumes "body_html message = Some h" "h \<noteq> []" "k \<noteq> []"
    and "soup_anchors P h = pre @ (href, txt) # post"
    and "\<forall>(a, t)\<in>set pre. \<not> py_in (lower k) (lower a) \<and> \<not> py_in (lower k) (lower t)"
    and "py_in (lower k) (lower href) \<or> py_in (lower k) (lower txt)"
  shows "extract_link P message (Some k) = Some href"
  using assms scan_links_keyword[OF assms(5,6), of post]
  by (simp add: extract_link_def truthy_str_def)

text \<open>
  Claim C10 run on the document \<^verbatim>\<open><a href=/verify>Verify Email</a>\<close>: the result is the
  relative path \<open>/verify\<close>, which begins with neither \<open>http://\<close> nor \<open>https://\<close>.
\<close>

theorem extract_link_keyword_any_href_witness:
  "extract_link example_parser (example_message ''m1'' [] (Some example_html)) (Some ''verify'') = Some ''/verify''
   \<and> \<not> starts_http ''/verify''
   \<and> soup_anchors example_parser example_html = [] @ (''/verify'', ''Verify Email'') # []"
  using extract_link_keyword_any_href[of "example_message ''m1'' [] (Some example_html)" example_html
      "''verify''" example_parser "[]" "''/verify''" "''Verify Email''" "[]"]
  by (simp add: ex_eval starts_http_def lower_def cp_def lower_cp_def)

section \<open>Properties of the provider\<close>

lemma scan_messages_found:
  "scan_messages msgs seen w fs fd = (Some m, seen') \<Longrightarrow>
   \<exists>pre post. msgs = pre @ m # post \<and> msg_id m \<notin> seen \<union> msg_id ` set pre \<and>
     (\<forall>t. received_at m = Some t \<longrightarrow> w \<le> t)"
proof (induction msgs arbitrary: seen)
  case Nil
  then show ?case by simp
next
  case (Cons msg msgs)
  show ?case
  proof (cases "scan_messages (msg # msgs) seen w fs fd = (Some msg, insert (msg_id msg) seen) \<and> msg_id msg \<notin> seen
      \<and> (\<forall>t. received_at msg = Some t \<longrightarrow> w \<le> t) \<and> m = msg")
    case True
    then have "msg # msgs = [] @ m # msgs \<and> msg_id m \<notin> seen \<union> msg_id ` set [] \<and> (\<forall>t. received_at m = Some t \<longrightarrow> w \<le> t)"
      by simp
    then show ?thesis by blast
  next
    case False
    then have "\<exists>seen2. scan_messages msgs seen2 w fs fd = (Some m, seen') \<and> seen \<union> {msg_id msg} \<subseteq> seen2"
      using Cons.prems by (auto simp add: Let_def split: if_splits option.splits)
    then obtain seen2 where s2: "scan_messages msgs seen2 w fs fd = (Some m, seen')" "seen \<union> {msg_id msg} \<subseteq> seen2"
      by blast
    from Cons.IH[OF s2(1)] obtain pre post where
      "msgs = pre @ m # post" "msg_id m \<notin> seen2 \<union> msg_id ` set pre" "\<forall>t. received_at m = Some t \<longrightarrow> w \<le> t"
      by blast
    then have "msg # msgs = (msg # pre) @ m # post \<and> msg_id m \<notin> seen \<union> msg_id ` set (msg # pre) \<and>
       (\<forall>t. received_at m = Some t \<longrightarrow> w \<le> t)"
      using s2(2) by auto
    then show ?thesis by blast
  qed
qed

lemma scan_messages_none:
  "scan_messages msgs seen w fs fd = (None, seen') \<Longrightarrow> seen' = seen \<union> msg_id ` set msgs"
  by (induction msgs arbitrary: seen) (auto simp add: Let_def split: if_splits)

lemma wait_loop_found:
  "wait_loop L s t0 w timeout interval fs fd polls seen = Returned (Some m) \<Longrightarrow>
   \<exists>pre post. concat (map (\<lambda>(now, http). get_messages L s http 20 None) polls) = pre @ m # post \<and>
     msg_id m \<notin> seen \<union> msg_id ` set pre \<and> (\<forall>t. received_at m = Some t \<longrightarrow> w \<le> t)"
proof (induction polls arbitrary: seen)
  case Nil
  then show ?case by simp
next
  case (Cons poll polls)
  obtain now http where poll: "poll = (now, http)" by (cases poll)
  let ?msgs = "get_messages L s http 20 None"
  obtain res seen' where sc: "scan_messages ?msgs seen w fs fd = (res, seen')"
    by (cases "scan_messages ?msgs seen w fs fd")
  from Cons.prems poll have run: "float_sub L now t0 < real_of_int timeout" "\<not> interval < 0"
    by (auto split: if_splits)
  show ?case
  proof (cases res)
    case None
    with sc have seen': "seen' = seen \<union> msg_id ` set ?msgs" by (simp add: scan_messages_none)
    from Cons.prems poll run sc None
    have "wait_loop L s t0 w timeout interval fs fd polls seen' = Returned (Some m)" by simp
    from Cons.IH[OF this] obtain pre post where
      "concat (map (\<lambda>(now, http). get_messages L s http 20 None) polls) = pre @ m # post"
      "msg_id m \<notin> seen' \<union> msg_id ` set pre" "\<forall>t. received_at m = Some t \<longrightarrow> w \<le> t"
      by blast
    then have "concat (map (\<lambda>(now, http). get_messages L s http 20 None) (poll # polls)) = (?msgs @ pre) @ m # post
       \<and> msg_id m \<notin> seen \<union> msg_id ` set (?msgs @ pre) \<and> (\<forall>t. received_at m = Some t \<longrightarrow> w \<le> t)"
      using seen' poll by auto
    then show ?thesis by blast
  next
    case (Some m')
    with Cons.prems poll run sc have "m' = m" by simp
    with sc Some have "scan_messages ?msgs seen w fs fd = (Some m, seen')" by simp
    from scan_messages_found[OF this] obtain pre post where
      "?msgs = pre @ m # post" "msg_id m \<notin> seen \<union> msg_id ` set pre" "\<forall>t. received_at m = Some t \<longrightarrow> w \<le> t"
      by blast
    then have "concat (map (\<lambda>(now, http). get_messages L s http 20 None) (poll # polls)) =
        pre @ m # (post @ concat (map (\<lambda>(now, http). get_messages L s http 20 None) polls))
       \<and> msg_id m \<notin> seen \<union> msg_id ` set pre \<and> (\<forall>t. received_at m = Some t \<longrightarrow> w \<le> t)"
      using poll by simp
    then show ?thesis by blast
  qed
qed

text \<open>
  The loop is over as soon as a clock reading at or past the deadline is read: \<open>Pending\<close>
  only stands for a recorded environment that ends before the deadline.
\<close>

lemma wait_loop_ends:
  "0 \<le> interval \<Longrightarrow> (now, http) \<in> set polls \<Longrightarrow> \<not> float_sub L now t0 < real_of_int timeout \<Longrightarrow>
   wait_loop L s t0 w timeout interval fs fd polls seen \<noteq> Pending"
proof (induction polls arbitrary: seen)
  case Nil
  then show ?case by simp
next
  case (Cons poll polls)
  obtain now' http' where poll: "poll = (now', http')" by (cases poll)
  obtain res seen' where sc: "scan_messages (get_messages L s http' 20 None) seen w fs fd = (res, seen')"
    by (cases "scan_messages (get_messages L s http' 20 None) seen w fs fd")
  show ?case
  proof (cases "float_sub L now' t0 < real_of_int timeout")
    case False
    then show ?thesis using poll by simp
  next
    case True
    then have "(now, http) \<in> set polls" using Cons.prems(2,3) poll by auto
    from Cons.IH[OF Cons.prems(1) this Cons.prems(3)]
    have "wait_loop L s t0 w timeout interval fs fd polls seen' \<noteq> Pending" .
    then show ?thesis using True poll sc Cons.prems(1) by (cases res) simp_all
  qed
qed

text \<open>
  Claim C1. When \<open>wait_for_message\<close> returns a message, that message occurs in the
  sequence of the messages fetched by the polls of the call at a place before which no
  message has its id, and its \<open>received_at\<close>, when present, is not before
  \<open>wait_start_millis\<close>, the clock reading taken when the call began, in whole milliseconds
  as the code computes them.
\<close>

theorem wait_for_message_fresh:
  assumes "wait_for_message L s t0 t1 polls timeout interval filter_subject filter_sender = Returned (Some m)"
  shows "(\<exists>pre post. concat (map (\<lambda>(now, http). get_messages L s http 20 None) polls) = pre @ m # post \<and>
            msg_id m \<notin> msg_id ` set pre) \<and>
         (\<forall>t. received_at m = Some t \<longrightarrow> py_int (float_mul L t1 1000) \<le> t)"
  using wait_loop_found[OF assms[unfolded wait_for_message_def]] by auto

text \<open>
  Claim C1 run on two polls: the id \<open>a\<close> is seen in the first poll with an old
  timestamp, so the second poll skips it and returns \<open>b\<close>.
\<close>

theorem wait_for_message_fresh_witness:
  "wait_for_message example_library example_provider 100 100
      [(101, Response 200 (Records [example_record ''a'' (Some (JInt 2000))])),
       (102, Response 200 (Records [example_record ''a'' (Some (JInt 200000)),
                                    example_record ''b'' (Some (JInt 100000))]))]
      60 5 None None
    = Returned (Some (to_message example_provider (example_record ''b'' (Some (JInt 100000))) (Some 100000)))
   \<and> py_int (float_mul example_library 100 1000) \<le> 100000
   \<and> (\<exists>pre post.
        concat (map (\<lambda>(now, http). get_messages example_library example_provider http 20 None)
          [(101::real, Response 200 (Records [example_record ''a'' (Some (JInt 2000))])),
           (102, Response 200 (Records [example_record ''a'' (Some (JInt 200000)),
                                        example_record ''b'' (Some (JInt 100000))]))])
          = pre @ to_message example_provider (example_record ''b'' (Some (JInt 100000))) (Some 100000) # post
        \<and> ''b'' \<notin> msg_id ` set pre)"
proof -
  have h: "wait_for_message example_library example_provider 100 100
      [(101, Response 200 (Records [example_record ''a'' (Some (JInt 2000))])),
       (102, Response 200 (Records [example_record ''a'' (Some (JInt 200000)),
                                    example_record ''b'' (Some (JInt 100000))]))]
      60 5 None None
    = Returned (Some (to_message example_provider (example_record ''b'' (Some (JInt 100000))) (Some 100000)))"
    by (simp add: wait_for_message_def truthy_str_def py_int_def get_messages_def py_take_def too_old_def
        parse_time_def get_or_def to_message_def ex_eval)
  have i: "msg_id (to_message example_provider (example_record ''b'' (Some (JInt 100000))) (Some 100000)) = ''b''"
    by (simp add: to_message_def get_or_def ex_eval)
  have le: "py_int (float_mul example_library 100 1000) \<le> 100000"
    by (simp add: py_int_def example_library_def)
  note c = conjunct1[OF wait_for_message_fresh[OF h], unfolded i]
  show ?thesis by (rule conjI[OF h conjI[OF le c]])
qed

lemma collect_filter:
  assumes "\<forall>r\<in>set rs. record_millis r \<noteq> None"
  shows "collect L s bound rs =
     Inr (map (\<lambda>r. to_message s r (parse_time L (get_or (JInt 0) (r_posix_millis r))))
            (filter (\<lambda>r. \<not> (\<exists>b t. bound = Some b \<and> b \<noteq> 0 \<and> record_millis r = Some t \<and> t \<le> b)) rs))"
  using assms
proof (induction rs)
  case Nil
  then show ?case by simp
next
  case (Cons r rs)
  then obtain t where t: "as_int (get_or (JInt 0) (r_posix_millis r)) = Some t"
    by (auto simp add: record_millis_def)
  have IH: "collect L s bound rs =
     Inr (map (\<lambda>r. to_message s r (parse_time L (get_or (JInt 0) (r_posix_millis r))))
            (filter (\<lambda>r. \<not> (\<exists>b t. bound = Some b \<and> b \<noteq> 0 \<and> record_millis r = Some t \<and> t \<le> b)) rs))"
    using Cons by simp
  show ?case
    using t IH by (cases bound) (auto simp add: too_old_def record_millis_def Let_def)
qed

text \<open>
  Claim C2, as amended. For a bound provider, a reply with status 200 and records whose
  timestamp is missing or a number: a record of \<open>data[:limit]\<close> is left out exactly when
  the lower bound (\<open>since\<close> if given, else the registration time) is present and not 0 and
  the timestamp of the record, read as 0 when the field is missing, is at most the bound;
  the records kept are mapped in order. A record without timestamp is read as 0, and when
  it is kept its message has no \<open>received_at\<close>.
\<close>

theorem get_messages_time_filter:
  assumes "auth_token s = Some tok" "tok \<noteq> []" "email s \<noteq> []"
    and "\<forall>r\<in>set (py_take data limit). record_millis r \<noteq> None"
  shows "get_messages L s (Response 200 (Records data)) limit since =
     map (\<lambda>r. to_message s r (parse_time L (get_or (JInt 0) (r_posix_millis r))))
       (filter (\<lambda>r. \<not> (\<exists>b t. (case since of Some d \<Rightarrow> Some d | None \<Rightarrow> registration_time s) = Some b
                              \<and> b \<noteq> 0 \<and> record_millis r = Some t \<and> t \<le> b))
          (py_take data limit))
   \<and> (\<forall>r. r_posix_millis r = None \<longrightarrow>
         record_millis r = Some 0 \<and>
         received_at (to_message s r (parse_time L (get_or (JInt 0) (r_posix_millis r)))) = None)"
proof
  let ?sm = "(case since of Some d \<Rightarrow> Some d
             | None \<Rightarrow> (case registration_time s of Some t \<Rightarrow> if t \<noteq> 0 then Some t else None | None \<Rightarrow> None))"
  have eq: "(\<exists>b t. ?sm = Some b \<and> b \<noteq> 0 \<and> record_millis r = Some t \<and> t \<le> b) \<longleftrightarrow>
        (\<exists>b t. (case since of Some d \<Rightarrow> Some d | None \<Rightarrow> registration_time s) = Some b
                \<and> b \<noteq> 0 \<and> record_millis r = Some t \<and> t \<le> b)" for r
    by (auto split: option.splits if_splits)
  have "collect L s ?sm (py_take data limit) =
     Inr (map (\<lambda>r. to_message s r (parse_time L (get_or (JInt 0) (r_posix_millis r))))
       (filter (\<lambda>r. \<not> (\<exists>b t. (case since of Some d \<Rightarrow> Some d | None \<Rightarrow> registration_time s) = Some b
                              \<and> b \<noteq> 0 \<and> record_millis r = Some t \<and> t \<le> b))
          (py_take data limit)))"
    using collect_filter[OF assms(4), of L s ?sm] unfolding eq .
  then show "get_messages L s (Response 200 (Records data)) limit since =
     map (\<lambda>r. to_message s r (parse_time L (get_or (JInt 0) (r_posix_millis r))))
       (filter (\<lambda>r. \<not> (\<exists>b t. (case since of Some d \<Rightarrow> Some d | None \<Rightarrow> registration_time s) = Some b
                              \<and> b \<noteq> 0 \<and> record_millis r = Some t \<and> t \<le> b))
          (py_take data limit))"
    using assms(1-3) by (simp only: get_messages_def Let_def) simp
next
  show "\<forall>r. r_posix_millis r = None \<longrightarrow>
         record_millis r = Some 0 \<and>
         received_at (to_message s r (parse_time L (get_or (JInt 0) (r_posix_millis r)))) = None"
    by (simp add: record_millis_def get_or_def to_message_def parse_time_def)
qed

text \<open>
  Claim C2, the amended statement run with the registration time 1000 as bound, and with
  \<open>since\<close> before the epoch, where the record without timestamp is kept.
\<close>

theorem get_messages_time_filter_witness:
  "get_messages example_library example_provider
     (Response 200 (Records [example_record ''a'' None, example_record ''b'' (Some (JInt 2000)),
                             example_record ''c'' (Some (JInt 500))])) 10 None
   = [to_message example_provider (example_record ''b'' (Some (JInt 2000))) (Some 2000)]
   \<and> get_messages example_library example_provider
     (Response 200 (Records [example_record ''a'' None, example_record ''b'' (Some (JInt 2000))])) 10 (Some (- 5))
   = [to_message example_provider (example_record ''a'' None) None,
      to_message example_provider (example_record ''b'' (Some (JInt 2000))) (Some 2000)]"
  using get_messages_time_filter[of example_provider "''tok''"
      "[example_record ''a'' None, example_record ''b'' (Some (JInt 2000)), example_record ''c'' (Some (JInt 500))]"
      10 example_library None]
    get_messages_time_filter[of example_provider "''tok''"
      "[example_record ''a'' None, example_record ''b'' (Some (JInt 2000))]"
      10 example_library "Some (- 5)"]
  by (simp add: py_take_def record_millis_def get_or_def parse_time_def ex_eval)

text \<open>
  Claim C2 as stated fails: with the registration time 1000 as bound, a record without
  timestamp is left out.
\<close>

theorem get_messages_absent_timestamp_counterexample:
  "r_posix_millis (example_record ''a'' None) = None
   \<and> registration_time example_provider = Some 1000
   \<and> get_messages example_library example_provider (Response 200 (Records [example_record ''a'' None])) 10 None = []"
  by (simp add: get_messages_def py_take_def too_old_def get_or_def ex_eval)

text \<open>
  Claim C5 fails on the code. With a lower bound in force, a record whose timestamp is
  the string \<open>abc\<close> makes the comparison of the time filter raise, outside the try block
  that guards \<open>datetime.fromtimestamp\<close>, and the whole fetch yields the empty list: the
  well-formed record \<open>b\<close> is lost too. Without a bound the same reply gives both
  messages, the first with no \<open>received_at\<close>.
\<close>

theorem get_messages_malformed_timestamp_aborts:
  "get_messages example_library example_provider
     (Response 200 (Records [example_record ''a'' (Some (JStr ''abc'')), example_record ''b'' (Some (JInt 2000))]))
     10 None = []
   \<and> get_messages example_library (example_provider\<lparr>registration_time := None\<rparr>)
     (Response 200 (Records [example_record ''a'' (Some (JStr ''abc'')), example_record ''b'' (Some (JInt 2000))]))
     10 None
     = [to_message (example_provider\<lparr>registration_time := None\<rparr>) (example_record ''a'' (Some (JStr ''abc''))) None,
        to_message (example_provider\<lparr>registration_time := None\<rparr>) (example_record ''b'' (Some (JInt 2000))) (Some 2000)]"
  by (simp add: get_messages_def py_take_def too_old_def parse_time_def get_or_def ex_eval)

text \<open>
  Claim C6, as amended. When the token acquisition fails (no token, or the empty token),
  \<open>connect\<close> returns False; the address, the registration time and the configuration are
  as before, no random draw is made, and the auth token is replaced by the result of the
  failed acquisition.
\<close>

theorem connect_failure_frame:
  assumes "get_auth_token L s hs = None \<or> get_auth_token L s hs = Some []"
  shows "connect L s hs r now = (False, s\<lparr>auth_token := get_auth_token L s hs\<rparr>, r)"
  using assms by (auto simp add: connect_def Let_def)

text \<open>
  Claim C6, the amended statement run on a handshake whose cookie is a pair of quotes,
  which decodes to the empty token.
\<close>

theorem connect_failure_frame_witness:
  "get_auth_token example_library example_provider (Handshake_cookies [(''auth_token'', [CHR 0x22, CHR 0x22])]) = Some []
   \<and> connect example_library example_provider (Handshake_cookies [(''auth_token'', [CHR 0x22, CHR 0x22])]) example_rng 5
       = (False, example_provider\<lparr>auth_token := Some []\<rparr>, example_rng)"
  using connect_failure_frame[of example_library example_provider
      "Handshake_cookies [(''auth_token'', [CHR 0x22, CHR 0x22])]" example_rng 5]
  by (simp add: get_auth_token_def strip_def strip_chars_def strip_by_def is_space_def cp_def ex_eval)

text \<open>
  Claim C6 as stated fails: a provider that holds the token \<open>tok\<close> holds none after a
  failed \<open>connect\<close>.
\<close>

theorem connect_failure_token_counterexample:
  "auth_token example_provider = Some ''tok''
   \<and> connect example_library example_provider Handshake_error example_rng 5
       = (False, example_provider\<lparr>auth_token := None\<rparr>, example_rng)"
  by (simp add: connect_def get_auth_token_def ex_eval)

lemma choices_length: "length (fst (choices xs k r)) = k"
proof (induction k arbitrary: r)
  case 0
  then show ?case by simp
next
  case (Suc k)
  obtain y r1 where c: "choice xs r = (y, r1)" by (cases "choice xs r")
  obtain ys r2 where d: "choices xs k r1 = (ys, r2)" by (cases "choices xs k r1")
  from Suc.IH[of r1] d have "length ys = k" by simp
  then show ?case using c d by simp
qed

lemma choice_mem: "xs \<noteq> [] \<Longrightarrow> fst (choice xs r) \<in> set xs"
  by (simp add: choice_def draw_def)

lemma choices_set: "xs \<noteq> [] \<Longrightarrow> set (fst (choices xs k r)) \<subseteq> set xs"
proof (induction k arbitrary: r)
  case 0
  then show ?case by simp
next
  case (Suc k)
  obtain y r1 where c: "choice xs r = (y, r1)" by (cases "choice xs r")
  obtain ys r2 where d: "choices xs k r1 = (ys, r2)" by (cases "choices xs k r1")
  from choice_mem[OF Suc.prems, of r] c have "y \<in> set xs" by simp
  moreover from Suc.IH[OF Suc.prems, of r1] d have "set ys \<subseteq> set xs" by simp
  ultimately show ?case using c d by simp
qed

lemma randint_range: "a \<le> b \<Longrightarrow> a \<le> fst (randint a b r) \<and> fst (randint a b r) \<le> b"
  by (simp add: randint_def draw_def) (smt (verit) Euclidean_Rings.pos_mod_bound int_nat_eq of_nat_0_le_iff of_nat_mod zmod_int)

text \<open>
  Claim C7. Every address of \<open>generate_random_email\<close> is a local part, the character
  \<open>@\<close> and a domain, where the local part has between 6 and 10 characters, all of them
  lower-case letters from a to z, and the domain is one of \<open>MAIL_HOSTS\<close>.
\<close>

theorem generate_random_email_shape:
  "\<exists>local domain. fst (generate_random_email r) = local @ ''@'' @ domain \<and>
     6 \<le> length local \<and> length local \<le> 10 \<and>
     (\<forall>c\<in>set local. c \<in> set ''abcdefghijklmnopqrstuvwxyz'') \<and>
     domain \<in> set MAIL_HOSTS"
proof -
  obtain n r1 where n: "randint 6 10 r = (n, r1)" by (cases "randint 6 10 r")
  obtain u r2 where u: "choices ascii_lowercase (nat n) r1 = (u, r2)" by (cases "choices ascii_lowercase (nat n) r1")
  obtain d r3 where d: "choice MAIL_HOSTS r2 = (d, r3)" by (cases "choice MAIL_HOSTS r2")
  from randint_range[of 6 10 r] n have nr: "6 \<le> n" "n \<le> 10" by simp_all
  from choices_length[of ascii_lowercase "nat n" r1] u have "length u = nat n" by simp
  with nr have len: "6 \<le> length u" "length u \<le> 10" by simp_all
  have "ascii_lowercase \<noteq> []" by (simp add: ascii_lowercase_def)
  from choices_set[OF this, of "nat n" r1] u have "set u \<subseteq> set ''abcdefghijklmnopqrstuvwxyz''"
    by (simp add: ascii_lowercase_def)
  then have letters: "\<forall>c\<in>set u. c \<in> set ''abcdefghijklmnopqrstuvwxyz''" by blast
  have "MAIL_HOSTS \<noteq> []" by (simp add: MAIL_HOSTS_def)
  from choice_mem[OF this, of r2] d have dm: "d \<in> set MAIL_HOSTS" by simp
  have "fst (generate_random_email r) = u @ ''@'' @ d"
    using n u d by (simp add: generate_random_email_def)
  with len letters dm show ?thesis by blast
qed

text \<open>
  Claim C7 run on the draws 0, 1, 2, ...
\<close>

theorem generate_random_email_shape_witness:
  "fst (generate_random_email example_rng) = ''bcdefg'' @ ''@'' @ ''end.tw''
   \<and> 6 \<le> length ''bcdefg'' \<and> length ''bcdefg'' \<le> 10
   \<and> set ''bcdefg'' \<subseteq> set ''abcdefghijklmnopqrstuvwxyz''
   \<and> ''end.tw'' \<in> set MAIL_HOSTS"
  using generate_random_email_shape[of example_rng]
  by (simp add: generate_random_email_def randint_def choice_def draw_def ascii_lowercase_def MAIL_HOSTS_def
      example_rng_def choices_numeral)

lemma py_int_mono: "x \<le> y \<Longrightarrow> py_int x \<le> py_int y"
proof -
  assume xy: "x \<le> y"
  show ?thesis
  proof (cases "0 \<le> x")
    case True
    then show ?thesis using xy by (simp add: py_int_def floor_mono)
  next
    case neg: False
    show ?thesis
    proof (cases "0 \<le> y")
      case True
      have "\<lceil>x\<rceil> \<le> 0" using neg by (simp add: ceiling_le_iff)
      moreover have "0 \<le> \<lfloor>y\<rfloor>" using True by simp
      ultimately have "\<lceil>x\<rceil> \<le> \<lfloor>y\<rfloor>" by (rule order_trans)
      moreover have "py_int x = \<lceil>x\<rceil>" using neg by (simp add: py_int_def)
      moreover have "py_int y = \<lfloor>y\<rfloor>" using True by (simp add: py_int_def)
      ultimately show ?thesis by (simp only:)
    next
      case False
      then show ?thesis using neg xy by (simp add: py_int_def ceiling_mono)
    qed
  qed
qed

text \<open>
  Claim C8, as amended. Each call of \<open>create_email\<close> records the integer part of the
  double product \<open>time.time() * 1000\<close> of that call. The second value is not before the
  first when the second product is not smaller than the first, which is so when the clock
  did not go back and the double product with 1000 is monotone; it is strictly later when
  the product, not negative, advanced by 1 or more.
\<close>

theorem create_email_twice_registration_time:
  assumes "create_email L s r now1 = (e1, s1, r1)" "create_email L s1 r1 now2 = (e2, s2, r2)"
  shows "registration_time s1 = Some (py_int (float_mul L now1 1000)) \<and>
         registration_time s2 = Some (py_int (float_mul L now2 1000)) \<and>
         (float_mul L now1 1000 \<le> float_mul L now2 1000 \<longrightarrow>
            py_int (float_mul L now1 1000) \<le> py_int (float_mul L now2 1000)) \<and>
         ((\<forall>x y. x \<le> y \<longrightarrow> float_mul L x 1000 \<le> float_mul L y 1000) \<and> now1 \<le> now2 \<longrightarrow>
            py_int (float_mul L now1 1000) \<le> py_int (float_mul L now2 1000)) \<and>
         (0 \<le> float_mul L now1 1000 \<and> float_mul L now1 1000 + 1 \<le> float_mul L now2 1000 \<longrightarrow>
            py_int (float_mul L now1 1000) < py_int (float_mul L now2 1000))"
proof -
  let ?p1 = "float_mul L now1 1000" and ?p2 = "float_mul L now2 1000"
  have 1: "registration_time s1 = Some (py_int ?p1)"
    using assms(1) by (auto simp add: create_email_def split: prod.splits)
  have 2: "registration_time s2 = Some (py_int ?p2)"
    using assms(2) by (auto simp add: create_email_def split: prod.splits)
  have 3: "?p1 \<le> ?p2 \<longrightarrow> py_int ?p1 \<le> py_int ?p2"
    by (simp add: py_int_mono)
  have 4: "(\<forall>x y. x \<le> y \<longrightarrow> float_mul L x 1000 \<le> float_mul L y 1000) \<and> now1 \<le> now2 \<longrightarrow>
      py_int ?p1 \<le> py_int ?p2"
    using 3 by blast
  have 5: "0 \<le> ?p1 \<and> ?p1 + 1 \<le> ?p2 \<longrightarrow> py_int ?p1 < py_int ?p2"
  proof
    assume a: "0 \<le> ?p1 \<and> ?p1 + 1 \<le> ?p2"
    then have "\<lfloor>?p1\<rfloor> + 1 \<le> \<lfloor>?p2\<rfloor>" by linarith
    then show "py_int ?p1 < py_int ?p2" using a by (simp add: py_int_def)
  qed
  from 1 2 3 4 5 show ?thesis by blast
qed

text \<open>
  Claim C8, the amended statement run on two calls one second apart, at the readings 1000
  and 1001.
\<close>

theorem create_email_twice_registration_time_witness:
  "registration_time (fst (snd (create_email example_library example_provider example_rng 1000))) = Some 1000000
   \<and> registration_time (fst (snd (create_email example_library
        (fst (snd (create_email example_library example_provider example_rng 1000)))
        (snd (snd (create_email example_library example_provider example_rng 1000))) 1001))) = Some 1001000
   \<and> float_mul example_library 1000 1000 + 1 \<le> float_mul example_library 1001 1000
   \<and> py_int (float_mul example_library 1000 1000) < py_int (float_mul example_library 1001 1000)"
  using create_email_twice_registration_time[of example_library example_provider example_rng 1000
      "fst (create_email example_library example_provider example_rng 1000)"
      "fst (snd (create_email example_library example_provider example_rng 1000))"
      "snd (snd (create_email example_library example_provider example_rng 1000))" 1001
      "fst (create_email example_library (fst (snd (create_email example_library example_provider example_rng 1000)))
        (snd (snd (create_email example_library example_provider example_rng 1000))) 1001)"
      "fst (snd (create_email example_library (fst (snd (create_email example_library example_provider example_rng 1000)))
        (snd (snd (create_email example_library example_provider example_rng 1000))) 1001))"
      "snd (snd (create_email example_library (fst (snd (create_email example_library example_provider example_rng 1000)))
        (snd (snd (create_email example_library example_provider example_rng 1000))) 1001))"]
  by (simp add: py_int_def example_library_def)

text \<open>
  Claim C8 as stated fails: two calls at the readings 1000 + 1/8192 and 1000 + 1/4096
  seconds, the second later than the first, record the same registration time 1000000.
  Both readings are doubles, and so are their products with 1000, 1000000.1220703125 and
  1000000.244140625.
\<close>

theorem create_email_same_millisecond_counterexample:
  "registration_time (fst (snd (create_email example_library example_provider example_rng (8192001 / 8192)))) = Some 1000000
   \<and> registration_time (fst (snd (create_email example_library
        (fst (snd (create_email example_library example_provider example_rng (8192001 / 8192))))
        (snd (snd (create_email example_library example_provider example_rng (8192001 / 8192))))
        (4096001 / 4096)))) = Some 1000000
   \<and> (8192001 / 8192 :: real) < 4096001 / 4096"
  by (simp add: create_email_def py_int_def example_library_def split: prod.splits)

end
